theory Spec2Isabelle
  imports Complex_Main "HOL-Library.AList"
begin

section \<open>Strings and the Keyframe Translator (src/lib/actions.ts, lines 43-77)\<close>

text \<open>
  JavaScript strings are modelled as \<^typ>\<open>string\<close> restricted to ASCII code units, which is
  the alphabet of CSS property names and of the texts the transition catalog produces.
  A JavaScript exception is a value of type \<^typ>\<open>'a + 'b\<close> on the left.
\<close>

datatype error = TypeError | NotFoundError

text \<open>\<^verbatim>\<open>String.prototype.split\<close> with a one-character separator: the empty string splits
  into one empty part, and a separator at either end yields an empty part there.\<close>

fun split_on :: "char \<Rightarrow> string \<Rightarrow> string list" where
  "split_on c [] = [[]]"
| "split_on c (x # xs) =
     (if x = c then [] # split_on c xs
      else (case split_on c xs of [] \<Rightarrow> [[x]] | w # ws \<Rightarrow> (x # w) # ws))"

text \<open>\<^verbatim>\<open>String.prototype.trim\<close> on ASCII: tab, line feed, vertical tab, form feed,
  carriage return and space are removed from both ends.\<close>

definition is_space :: "char \<Rightarrow> bool" where
  "is_space c = (c \<in> set [CHR 0x09, CHR 0x0A, CHR 0x0B, CHR 0x0C, CHR 0x0D, CHR 0x20])"

definition trim :: "string \<Rightarrow> string" where
  "trim s = rev (dropWhile is_space (rev (dropWhile is_space s)))"

definition startsWith :: "string \<Rightarrow> string \<Rightarrow> bool" where
  "startsWith s p = (take (length p) s = p)"

text \<open>\<^verbatim>\<open>toUpperCase\<close> of one ASCII character.\<close>

definition toUpperCase :: "char \<Rightarrow> char" where
  "toUpperCase c =
     (case map_of (zip ''abcdefghijklmnopqrstuvwxyz'' ''ABCDEFGHIJKLMNOPQRSTUVWXYZ'') c of
        Some u \<Rightarrow> u
      | None \<Rightarrow> c)"

text \<open>The callback \<^verbatim>\<open>(word) => word[0].toUpperCase() + word.slice(1)\<close>: on the empty
  string \<^verbatim>\<open>word[0]\<close> is \<^verbatim>\<open>undefined\<close> and the method call raises a TypeError.\<close>

fun upper_first :: "string \<Rightarrow> error + string" where
  "upper_first [] = Inl TypeError"
| "upper_first (c # cs) = Inr (toUpperCase c # cs)"

text \<open>\<^verbatim>\<open>Array.prototype.map\<close> with a callback that may raise: elements are visited from
  the left and the first exception ends the call.\<close>

fun map_err :: "('a \<Rightarrow> error + 'b) \<Rightarrow> 'a list \<Rightarrow> error + 'b list" where
  "map_err f [] = Inr []"
| "map_err f (x # xs) =
     (case f x of
        Inl e \<Rightarrow> Inl e
      | Inr y \<Rightarrow> (case map_err f xs of Inl e \<Rightarrow> Inl e | Inr ys \<Rightarrow> Inr (y # ys)))"

definition css_property_to_camelcase :: "string \<Rightarrow> error + string" where
  "css_property_to_camelcase property =
     (if property = ''float'' then Inr ''cssFloat''
      else if property = ''offset'' then Inr ''cssOffset''
      else if startsWith property ''--'' then Inr property
      else
        (let parts = split_on CHR ''-'' property in
         if length parts = 1 then Inr (hd parts)
         else
           (case map_err upper_first (tl parts) of
              Inl e \<Rightarrow> Inl e
            | Inr words \<Rightarrow> Inr (hd parts @ concat words))))"

text \<open>A keyframe is a JavaScript object with string keys: an association list in
  insertion order, where assigning to a key that is present replaces its value in place.
  (JavaScript lists the keys that are array indices first; nothing here depends on the
  order of the keys.)\<close>

type_synonym keyframe = "(string \<times> string) list"

text \<open>The loop of \<^verbatim>\<open>css_to_keyframe\<close> over the parts, with its \<^verbatim>\<open>break\<close>: the
  destructuring \<^verbatim>\<open>[property, value] = part.split(':')\<close> takes the first two pieces, and
  \<^verbatim>\<open>value\<close> is \<^verbatim>\<open>undefined\<close> when there is no colon.\<close>

fun keyframe_loop :: "string list \<Rightarrow> keyframe \<Rightarrow> error + keyframe" where
  "keyframe_loop [] keyframe = Inr keyframe"
| "keyframe_loop (part # parts) keyframe =
     (case split_on CHR '':'' part of
        property # val # _ \<Rightarrow>
          (if property = [] then Inr keyframe
           else
             (case css_property_to_camelcase (trim property) of
                Inl e \<Rightarrow> Inl e
              | Inr formatted_property \<Rightarrow>
                  keyframe_loop parts (AList.update formatted_property (trim val) keyframe)))
      | _ \<Rightarrow> Inr keyframe)"

definition css_to_keyframe :: "string \<Rightarrow> error + keyframe" where
  "css_to_keyframe css_text = keyframe_loop (split_on CHR '';'' css_text) []"

section \<open>Numbers and transition descriptors\<close>

text \<open>
  JavaScript numbers are idealised: a finite number is a real (no rounding), and the three
  values that are not finite are kept apart. Durations and delays are finite numbers; an
  infinite duration, on which the sampling loop of \<^verbatim>\<open>animate\<close> would not end, is outside
  the model. The quotient \<^verbatim>\<open>i / n\<close> of the sampling loops is a division of two integers,
  and \<^verbatim>\<open>0 / 0\<close> is \<^verbatim>\<open>NaN\<close> there; a loop reaches \<open>n = 0\<close> only with \<open>i = 0\<close>.
\<close>

datatype jsnum = Num real | NaN | PosInfinity | NegInfinity

definition js_quotient :: "int \<Rightarrow> int \<Rightarrow> jsnum" where
  "js_quotient i n =
     (if n = 0 then (if i = 0 then NaN else if 0 < i then PosInfinity else NegInfinity)
      else Num (real_of_int i / real_of_int n))"

fun js_one_minus :: "jsnum \<Rightarrow> jsnum" where
  "js_one_minus (Num x) = Num (1 - x)"
| "js_one_minus NaN = NaN"
| "js_one_minus PosInfinity = NegInfinity"
| "js_one_minus NegInfinity = PosInfinity"

definition linear :: "jsnum \<Rightarrow> jsnum" where
  "linear t = t"

text \<open>A \<^verbatim>\<open>TransitionConfig\<close>: every field is optional; \<open>tick\<close> records whether the
  descriptor has a tick hook.\<close>

record transition_config =
  delay :: "real option"
  duration :: "real option"
  css :: "(jsnum \<Rightarrow> jsnum \<Rightarrow> string) option"
  tick :: bool
  easing :: "(jsnum \<Rightarrow> jsnum) option"

text \<open>The sample count \<^verbatim>\<open>Math.ceil(duration / (1000 / 60))\<close>.\<close>

definition frame_count :: "real \<Rightarrow> int" where
  "frame_count d = \<lceil>d / (1000 / 60)\<rceil>"

text \<open>The body shared by the two sampling loops (lines 99-101 and 234-236): the eased time,
  the CSS text at that time, and its translation.\<close>

definition sample_at ::
  "(jsnum \<Rightarrow> jsnum \<Rightarrow> string) \<Rightarrow> (jsnum \<Rightarrow> jsnum) \<Rightarrow> int \<Rightarrow> int \<Rightarrow> error + keyframe" where
  "sample_at css_fn easing_fn n i =
     (let t = easing_fn (js_quotient i n); styles = css_fn t (js_one_minus t) in
      css_to_keyframe styles)"

text \<open>The loop of \<^verbatim>\<open>animate\<close>: \<^verbatim>\<open>for (let i = 0; i <= n; i += 1)\<close>, pushing each
  keyframe at the end of the list.\<close>

function sample_forward ::
  "(jsnum \<Rightarrow> jsnum \<Rightarrow> string) \<Rightarrow> (jsnum \<Rightarrow> jsnum) \<Rightarrow> int \<Rightarrow> int \<Rightarrow> keyframe list
     \<Rightarrow> error + keyframe list" where
  "sample_forward css_fn easing_fn n i keyframes =
     (if i \<le> n then
        (case sample_at css_fn easing_fn n i of
           Inl e \<Rightarrow> Inl e
         | Inr k \<Rightarrow> sample_forward css_fn easing_fn n (i + 1) (keyframes @ [k]))
      else Inr keyframes)"
  by pat_completeness auto
termination
  by (relation "measure (\<lambda>(c, e, n, i, ks). nat (n + 1 - i))") auto

declare sample_forward.simps [simp del]

text \<open>The loop of \<^verbatim>\<open>start_hover_animation\<close>: \<^verbatim>\<open>for (let i = n; i >= 0; i -= 1)\<close>.\<close>

function sample_backward ::
  "(jsnum \<Rightarrow> jsnum \<Rightarrow> string) \<Rightarrow> (jsnum \<Rightarrow> jsnum) \<Rightarrow> int \<Rightarrow> int \<Rightarrow> keyframe list
     \<Rightarrow> error + keyframe list" where
  "sample_backward css_fn easing_fn n i keyframes =
     (if 0 \<le> i then
        (case sample_at css_fn easing_fn n i of
           Inl e \<Rightarrow> Inl e
         | Inr k \<Rightarrow> sample_backward css_fn easing_fn n (i - 1) (keyframes @ [k]))
      else Inr keyframes)"
  by pat_completeness auto
termination
  by (relation "measure (\<lambda>(c, e, n, i, ks). nat (i + 1))") auto

declare sample_backward.simps [simp del]

section \<open>The platform's animations\<close>

text \<open>
  What \<^verbatim>\<open>element.animate(keyframes, options)\<close> returns: the keyframes and timing options
  it was given, its play state, whether its effect is attached, its direction and its
  \<^verbatim>\<open>onfinish\<close> handler. The handlers are the closures the source assigns; platform calls
  are taken to succeed.
\<close>

datatype fill_mode = Fill_auto | Fill_forwards | Fill_both

datatype play_state = Running | Finished | Idle

datatype handler =
    Unset
  | Delay_finished
  | Main_finished
  | Empty_handler
  | Reverse_finished
  | Hover_finished bool

record native_animation =
  na_keyframes :: "keyframe list"
  na_duration :: real
  na_delay :: real
  na_fill :: fill_mode
  na_easing :: "string option"
  na_state :: play_state
  na_effect :: bool
  na_reversed :: bool
  na_onfinish :: handler

definition element_animate ::
  "keyframe list \<Rightarrow> real \<Rightarrow> real \<Rightarrow> fill_mode \<Rightarrow> string option \<Rightarrow> native_animation" where
  "element_animate keyframes dur del fill_opt easing_opt =
     \<lparr>na_keyframes = keyframes, na_duration = dur, na_delay = del, na_fill = fill_opt,
      na_easing = easing_opt, na_state = Running, na_effect = True, na_reversed = False,
      na_onfinish = Unset\<rparr>"

definition animation_cancel :: "native_animation \<Rightarrow> native_animation" where
  "animation_cancel a = a\<lparr>na_state := Idle\<rparr>"

definition animation_reverse :: "native_animation \<Rightarrow> native_animation" where
  "animation_reverse a = a\<lparr>na_reversed := \<not> na_reversed a, na_state := Running\<rparr>"

section \<open>The Animation Driver (lines 79-133)\<close>

text \<open>
  The calls a run makes to its collaborators: the descriptor's \<^verbatim>\<open>tick(t, u)\<close>, the
  caller's \<^verbatim>\<open>onFinish\<close>, and the callback given to \<^verbatim>\<open>reverse\<close>.
\<close>

datatype call = Tick_call jsnum jsnum | On_finish_call | Reverse_on_finish_call

text \<open>The closure of one call of \<^verbatim>\<open>animate\<close>: its options, the native animations it
  has created on the element (oldest first), and its variable \<^verbatim>\<open>animation\<close> as an index
  into them. The variable \<^verbatim>\<open>keyframes\<close> is only read by the \<^verbatim>\<open>element.animate\<close> call
  that follows its construction and is not kept.\<close>

record driver =
  d_options :: transition_config
  d_animations :: "native_animation list"
  d_animation :: nat

text \<open>The destructuring defaults, and \<^verbatim>\<open>duration || 0\<close>.\<close>

definition opt_delay :: "transition_config \<Rightarrow> real" where
  "opt_delay options = (case delay options of None \<Rightarrow> 0 | Some d \<Rightarrow> d)"

definition opt_duration :: "transition_config \<Rightarrow> real" where
  "opt_duration options = (case duration options of None \<Rightarrow> 400 | Some d \<Rightarrow> d)"

definition opt_easing :: "transition_config \<Rightarrow> jsnum \<Rightarrow> jsnum" where
  "opt_easing options = (case easing options of None \<Rightarrow> linear | Some f \<Rightarrow> f)"

definition or_zero :: "real \<Rightarrow> real" where
  "or_zero d = (if d = 0 then 0 else d)"

text \<open>Lines 81-87: the keyframes of the delay stage.\<close>

definition initial_keyframes :: "transition_config \<Rightarrow> error + keyframe list" where
  "initial_keyframes options =
     (case css options of
        None \<Rightarrow> Inr []
      | Some css_fn \<Rightarrow>
          (case css_to_keyframe (css_fn (Num 0) (Num 1)) of
             Inl e \<Rightarrow> Inl e
           | Inr styles \<Rightarrow> Inr [styles, styles]))"

text \<open>Lines 93-103: the keyframes of the main stage.\<close>

definition main_keyframes :: "transition_config \<Rightarrow> error + keyframe list" where
  "main_keyframes options =
     (case css options of
        None \<Rightarrow> Inr []
      | Some css_fn \<Rightarrow>
          sample_forward css_fn (opt_easing options)
            (frame_count (or_zero (opt_duration options))) 0 [])"

text \<open>\<^verbatim>\<open>animate\<close> up to its \<^verbatim>\<open>return\<close>: the translation of \<^verbatim>\<open>css(0, 1)\<close> may raise, and
  then no handle is returned.\<close>

definition animate :: "transition_config \<Rightarrow> error + driver" where
  "animate options =
     (case initial_keyframes options of
        Inl e \<Rightarrow> Inl e
      | Inr keyframes \<Rightarrow>
          Inr \<lparr>d_options = options,
               d_animations =
                 [(element_animate keyframes (opt_delay options) 0 Fill_auto None)
                    \<lparr>na_onfinish := Delay_finished\<rparr>],
               d_animation = 0\<rparr>)"

text \<open>The handler of the delay stage (lines 92-114). An exception raised while sampling
  leaves the handler; no main animation is created.\<close>

definition delay_finished :: "driver \<Rightarrow> driver" where
  "delay_finished d =
     (case main_keyframes (d_options d) of
        Inl e \<Rightarrow> d
      | Inr keyframes \<Rightarrow>
          d\<lparr>d_animations :=
               d_animations d @
                 [(element_animate keyframes (or_zero (opt_duration (d_options d))) 0
                     Fill_forwards None)\<lparr>na_onfinish := Main_finished\<rparr>],
             d_animation := length (d_animations d)\<rparr>)"

definition update_current :: "(native_animation \<Rightarrow> native_animation) \<Rightarrow> driver \<Rightarrow> driver" where
  "update_current f d =
     (if d_animation d < length (d_animations d)
      then d\<lparr>d_animations := (d_animations d)[d_animation d := f (d_animations d ! d_animation d)]\<rparr>
      else d)"

text \<open>The platform's finish event on the run's current animation. Only a running animation
  finishes; an earlier animation of the run has finished already.\<close>

definition driver_finish :: "driver \<Rightarrow> driver \<times> call list" where
  "driver_finish d =
     (if d_animation d < length (d_animations d)
         \<and> na_state (d_animations d ! d_animation d) = Running
      then
        (let d1 = update_current (\<lambda>a. a\<lparr>na_state := Finished\<rparr>) d in
         case na_onfinish (d_animations d ! d_animation d) of
           Delay_finished \<Rightarrow> (delay_finished d1, [])
         | Main_finished \<Rightarrow>
             (d1, (if tick (d_options d) then [Tick_call (Num 1) (Num 0)] else [])
                    @ [On_finish_call])
         | Reverse_finished \<Rightarrow> (d1, [Reverse_on_finish_call])
         | _ \<Rightarrow> (d1, []))
      else (d, []))"

definition abort :: "driver \<Rightarrow> driver" where
  "abort d =
     update_current (\<lambda>a. (animation_cancel a)\<lparr>na_effect := False, na_onfinish := Empty_handler\<rparr>) d"

definition reverse :: "driver \<Rightarrow> driver" where
  "reverse d = update_current (\<lambda>a. animation_reverse (a\<lparr>na_onfinish := Reverse_finished\<rparr>)) d"

text \<open>What can happen to a handle, in any order.\<close>

datatype driver_event = Finish_event | Abort_call | Reverse_call

fun driver_step :: "driver_event \<Rightarrow> driver \<Rightarrow> driver \<times> call list" where
  "driver_step Finish_event d = driver_finish d"
| "driver_step Abort_call d = (abort d, [])"
| "driver_step Reverse_call d = (reverse d, [])"

fun driver_run :: "driver_event list \<Rightarrow> driver \<Rightarrow> driver \<times> call list" where
  "driver_run [] d = (d, [])"
| "driver_run (e # es) d =
     (case driver_step e d of
        (d1, calls1) \<Rightarrow> (case driver_run es d1 of (d2, calls2) \<Rightarrow> (d2, calls1 @ calls2)))"

section \<open>The Orchestrator \<^verbatim>\<open>microanimation\<close> (lines 175-346)\<close>

text \<open>
  The action \<^verbatim>\<open>microanimation\<close> with its closure and the part of the page it touches.
  The exported \<^verbatim>\<open>initHoverAnimation\<close> (lines 135-173) is a separate controller that
  \<^verbatim>\<open>microanimation\<close> does not call; it is not part of this model, and neither are the
  string templates of \<^verbatim>\<open>transitions.ts\<close>: a transition is any function from the node
  and the parameters to a descriptor.
\<close>

text \<open>
  The three modes, and the elements of the page the action touches: the animated node and
  the placeholders the action creates, numbered in the order of their creation.
\<close>

datatype mode = Hover | Viewport | Immediate

datatype element = Node | Placeholder nat

text \<open>
  An element's inline style is a list of declarations, keyed like a keyframe. The
  parameter object handed to a transition function is a list of named numbers; the empty
  list is \<^verbatim>\<open>{}\<close>. A transition function receives the node (here: its inline style)
  and the parameters.
\<close>

type_synonym style = "(string \<times> string) list"

type_synonym params = "(string \<times> jsnum) list"

type_synonym transition_fn = "style \<Rightarrow> params \<Rightarrow> transition_config"

text \<open>
  \<^verbatim>\<open>MicroanimationParameters\<close>: every field but the transition may be omitted.
\<close>

record microanimation_parameters =
  mp_transition :: transition_fn
  mp_params :: "params option"
  mp_threshold :: "real option"
  mp_once :: "bool option"
  mp_mode :: "mode option"

text \<open>
  An intersection observer: its target (a placeholder), its threshold, and whether it is
  still observing.
\<close>

record intersection_observer =
  io_target :: nat
  io_threshold :: real
  io_connected :: bool

text \<open>
  \<^verbatim>\<open>start_animation\<close> is an async function. It suspends at each \<^verbatim>\<open>await tick()\<close>; what
  remains to run is a task: after the first await of the viewport branch (lines 202-203), or
  after the await of line 206 (lines 208-218). Each task keeps the \<^verbatim>\<open>config\<close> computed
  before the await.
\<close>

datatype task = Swap_display transition_config | Start_driver transition_config

text \<open>
  A record of each call of \<^verbatim>\<open>hoverAnimation.reverse()\<close>: the animation it is called on and
  the value the variable \<^verbatim>\<open>hovered\<close> has at the call.
\<close>

datatype trace_event = Reverse_invoked nat bool

text \<open>
  The part of the page an attachment starts from: the node's inline style, the value the
  style sheets give each property of the node (an inline declaration wins over it), the
  children of the node's parent (\<open>None\<close> when the node has no parent; the node is one
  of them otherwise), and the inline styles of the placeholders created so far.
\<close>

record dom =
  dom_style :: style
  dom_sheet :: "string \<Rightarrow> string"
  dom_children :: "element list option"
  dom_placeholders :: "style list"

text \<open>
  The closure of one call of \<^verbatim>\<open>microanimation\<close> together with the page: the five
  configuration variables, the variables \<^verbatim>\<open>observer\<close>, \<^verbatim>\<open>animated\<close>, \<^verbatim>\<open>animation\<close>,
  \<^verbatim>\<open>hoverAnimation\<close>, \<^verbatim>\<open>placeholder\<close> and \<^verbatim>\<open>hovered\<close>, the runs of the Animation
  Driver and the hover animations created so far, the suspended tasks, the page, whether
  the two pointer listeners are registered on the node, and the calls and trace made so
  far. The variable \<^verbatim>\<open>initialStyles\<close> is written and never read, and is left out.
\<close>

record state =
  transition :: transition_fn
  params :: params
  threshold :: real
  once :: bool
  mode :: mode
  observer :: "intersection_observer option"
  animated :: bool
  animation :: "nat option"
  hoverAnimation :: "nat option"
  placeholder :: "nat option"
  hovered :: bool
  drivers :: "driver list"
  hover_animations :: "native_animation list"
  pending :: "task list"
  node_style :: style
  sheet :: "string \<Rightarrow> string"
  children :: "element list option"
  placeholders :: "style list"
  mouseenter_listener :: bool
  mouseleave_listener :: bool
  calls :: "call list"
  trace :: "trace_event list"

text \<open>
  Reading and writing an inline style: a property that is not declared reads as the empty
  string, and assigning the empty string removes the declaration. \<^verbatim>\<open>Object.assign\<close>
  assigns the pairs from the left. The computed value of a property of the node is its
  inline declaration when there is one.
\<close>

definition style_get :: "style \<Rightarrow> string \<Rightarrow> string" where
  "style_get st p = (case map_of st p of None \<Rightarrow> [] | Some v \<Rightarrow> v)"

definition style_set :: "string \<Rightarrow> string \<Rightarrow> style \<Rightarrow> style" where
  "style_set p v st = (if v = [] then AList.delete p st else AList.update p v st)"

fun object_assign :: "style \<Rightarrow> (string \<times> string) list \<Rightarrow> style" where
  "object_assign st [] = st"
| "object_assign st ((p, v) # rest) = object_assign (style_set p v st) rest"

definition computed :: "state \<Rightarrow> string \<Rightarrow> string" where
  "computed s p = (case map_of (node_style s) p of None \<Rightarrow> sheet s p | Some v \<Rightarrow> v)"

text \<open>
  \<^verbatim>\<open>parent.insertBefore(new, ref)\<close> and \<^verbatim>\<open>parent.replaceChild(new, old)\<close> on the list of
  children; the latter is guarded by \<^verbatim>\<open>old.parentNode?.\<close> in the source, so it does nothing
  when \<open>old\<close> is not a child. A node that is already a child is moved.
\<close>

fun insert_before :: "element \<Rightarrow> element \<Rightarrow> element list \<Rightarrow> element list" where
  "insert_before new ref [] = []"
| "insert_before new ref (x # xs) =
     (if x = ref then new # x # xs else x # insert_before new ref xs)"

definition replace_child :: "element \<Rightarrow> element \<Rightarrow> element list \<Rightarrow> element list" where
  "replace_child new old cs =
     (if old \<in> set cs then map (\<lambda>x. if x = old then new else x) (removeAll new cs) else cs)"

definition getFirstKeyframeOfTransition :: "transition_config \<Rightarrow> error + keyframe" where
  "getFirstKeyframeOfTransition config =
     css_to_keyframe (case css config of None \<Rightarrow> [] | Some css_fn \<Rightarrow> css_fn (Num 0) (Num 1))"

text \<open>
  \<^verbatim>\<open>animation?.abort()\<close> and \<^verbatim>\<open>observer?.disconnect()\<close>.
\<close>

definition abort_current :: "state \<Rightarrow> state" where
  "abort_current s =
     (case animation s of
        None \<Rightarrow> s
      | Some r \<Rightarrow>
          if r < length (drivers s) then s\<lparr>drivers := (drivers s)[r := abort (drivers s ! r)]\<rparr>
          else s)"

definition disconnect :: "state \<Rightarrow> state" where
  "disconnect s = s\<lparr>observer := map_option (\<lambda>ob. ob\<lparr>io_connected := False\<rparr>) (observer s)\<rparr>"

text \<open>
  \<^verbatim>\<open>start_animation\<close> up to its first await (lines 194-201 and 206). An exception in an
  async function rejects its promise and ends the function: \<^verbatim>\<open>removeChild\<close> raises when
  the placeholder is not a child of the node's parent, and the guard
  \<^verbatim>\<open>node.parentNode?.\<close> skips the call when the node has no parent.
\<close>

definition start_animation :: "state \<Rightarrow> state" where
  "start_animation s =
     (if animated s \<and> once s then s
      else
        (let s1 = s\<lparr>animated := True\<rparr>;
             config = transition s1 (node_style s1) (params s1)
         in if mode s1 = Viewport then
              (case children s1 of
                 None \<Rightarrow> s1\<lparr>pending := pending s1 @ [Swap_display config]\<rparr>
               | Some cs \<Rightarrow>
                   (case placeholder s1 of
                      None \<Rightarrow> s1
                    | Some p \<Rightarrow>
                        if Placeholder p \<in> set cs
                        then s1\<lparr>children := Some (remove1 (Placeholder p) cs),
                                pending := pending s1 @ [Swap_display config]\<rparr>
                        else s1))
            else s1\<lparr>pending := pending s1 @ [Start_driver config]\<rparr>))"

definition placeholder_style :: "state \<Rightarrow> nat \<Rightarrow> style" where
  "placeholder_style s p = (if p < length (placeholders s) then placeholders s ! p else [])"

text \<open>
  The callback given to \<^verbatim>\<open>animate\<close> (lines 213-218).
\<close>

definition animation_finished :: "state \<Rightarrow> state" where
  "animation_finished s =
     (let s1 = s\<lparr>animation := None\<rparr>
      in if mode s1 = Hover then s1\<lparr>animated := False\<rparr> else s1)"

text \<open>
  The two continuations of \<^verbatim>\<open>start_animation\<close>, and the resumption of the \<open>k\<close>-th suspended
  task. The translation of the first keyframe and \<^verbatim>\<open>animate\<close> may raise; the function
  ends there.
\<close>

fun resume_task :: "task \<Rightarrow> state \<Rightarrow> state" where
  "resume_task (Swap_display config) s =
     (case placeholder s of
        None \<Rightarrow> s
      | Some p \<Rightarrow>
          (let s1 = s\<lparr>node_style :=
                       style_set ''display'' (style_get (placeholder_style s p) ''display'')
                         (node_style s)\<rparr>
           in case getFirstKeyframeOfTransition config of
                Inl e \<Rightarrow> s1
              | Inr first \<Rightarrow>
                  s1\<lparr>node_style := object_assign (node_style s1) first,
                     pending := pending s1 @ [Start_driver config]\<rparr>))"
| "resume_task (Start_driver config) s =
     (let s1 = abort_current s
      in case animate config of
           Inl e \<Rightarrow> s1
         | Inr d \<Rightarrow> s1\<lparr>drivers := drivers s1 @ [d], animation := Some (length (drivers s1))\<rparr>)"

definition resume :: "nat \<Rightarrow> state \<Rightarrow> state" where
  "resume k s =
     (if k < length (pending s)
      then resume_task (pending s ! k) (s\<lparr>pending := take k (pending s) @ drop (Suc k) (pending s)\<rparr>)
      else s)"

text \<open>
  The platform's finish event on the current animation of the \<open>r\<close>-th run: the run's
  handler runs, and the caller's \<^verbatim>\<open>onFinish\<close> with it when the handler calls it.
\<close>

definition finish_driver :: "nat \<Rightarrow> state \<Rightarrow> state" where
  "finish_driver r s =
     (if r < length (drivers s) then
        (case driver_finish (drivers s ! r) of
           (d1, calls1) \<Rightarrow>
             (let s1 = s\<lparr>drivers := (drivers s)[r := d1], calls := calls s @ calls1\<rparr>
              in if On_finish_call \<in> set calls1 then animation_finished s1 else s1))
      else s)"

text \<open>
  The hover path (lines 221-272). The keyframes are sampled by the loop that counts down.
\<close>

definition hover_keyframes :: "transition_config \<Rightarrow> error + keyframe list" where
  "hover_keyframes config =
     (case css config of
        None \<Rightarrow> Inr []
      | Some css_fn \<Rightarrow>
          sample_backward css_fn (opt_easing config) (frame_count (opt_duration config))
            (frame_count (opt_duration config)) [])"

definition start_hover_animation :: "state \<Rightarrow> state" where
  "start_hover_animation s =
     (let transitionCompiled = transition s (node_style s) (params s)
      in case hover_keyframes transitionCompiled of
           Inl e \<Rightarrow> s
         | Inr keyframes \<Rightarrow>
             s\<lparr>hover_animations :=
                  hover_animations s @
                    [(element_animate keyframes (opt_duration transitionCompiled)
                        (opt_delay transitionCompiled) Fill_both (Some ''linear''))
                       \<lparr>na_onfinish := Hover_finished (tick transitionCompiled)\<rparr>],
               hoverAnimation := Some (length (hover_animations s))\<rparr>)"

definition handle_hover_animation :: "state \<Rightarrow> state" where
  "handle_hover_animation s =
     (if \<not> hovered s then start_hover_animation (s\<lparr>hovered := True\<rparr>) else s)"

definition reverse_animation :: "state \<Rightarrow> state" where
  "reverse_animation s =
     (if \<not> hovered s then s
      else
        (let s1 = s\<lparr>hovered := False\<rparr>;
             s2 = s1\<lparr>animated := False\<rparr>
         in case hoverAnimation s2 of
              None \<Rightarrow> s2
            | Some k \<Rightarrow>
                if k < length (hover_animations s2)
                then s2\<lparr>hover_animations :=
                          (hover_animations s2)
                            [k := (animation_reverse (hover_animations s2 ! k))
                                    \<lparr>na_onfinish := Empty_handler\<rparr>],
                        trace := trace s2 @ [Reverse_invoked k (hovered s2)]\<rparr>
                else s2))"

definition finish_hover :: "nat \<Rightarrow> state \<Rightarrow> state" where
  "finish_hover k s =
     (if k < length (hover_animations s) \<and> na_state (hover_animations s ! k) = Running then
        (let s1 = s\<lparr>hover_animations :=
                      (hover_animations s)[k := (hover_animations s ! k)\<lparr>na_state := Finished\<rparr>]\<rparr>
         in case na_onfinish (hover_animations s ! k) of
              Hover_finished has_tick \<Rightarrow>
                if has_tick then s1\<lparr>calls := calls s1 @ [Tick_call (Num 1) (Num 0)]\<rparr> else s1
            | _ \<Rightarrow> s1)
      else s)"

text \<open>
  The observer's callback (lines 298-306), \<^verbatim>\<open>setup\<close> (lines 274-317; written \<open>setup'\<close>
  here, the plain name being a keyword of the theory language), the attachment, and
  the two methods of the handle. \<^verbatim>\<open>destroy\<close> returns the state it leaves and the exception
  it raises, if any: reading \<^verbatim>\<open>placeholder.parentNode\<close> raises when the variable is
  undefined.
\<close>

definition observer_callback :: "bool \<Rightarrow> state \<Rightarrow> state" where
  "observer_callback isIntersecting s =
     (if isIntersecting then
        (let s1 = start_animation s in if once s1 then disconnect s1 else s1)
      else s)"

definition setup' :: "state \<Rightarrow> state" where
  "setup' s =
     (case mode s of
        Viewport \<Rightarrow>
          (let p = length (placeholders s);
               s1 = s\<lparr>placeholder := Some p,
                      placeholders := placeholders s @
                        [object_assign []
                           [(''width'', computed s ''width''),
                            (''minWidth'', computed s ''minWidth''),
                            (''height'', computed s ''height''),
                            (''minHeight'', computed s ''minHeight''),
                            (''margin'', computed s ''margin''),
                            (''padding'', computed s ''padding''),
                            (''border'', computed s ''border''),
                            (''boxSizing'', computed s ''boxSizing''),
                            (''display'', computed s ''display'')]]\<rparr>;
               s2 = s1\<lparr>children := map_option (insert_before (Placeholder p) Node) (children s1)\<rparr>;
               s3 = s2\<lparr>node_style := style_set ''display'' ''none'' (node_style s2)\<rparr>
           in s3\<lparr>observer := Some \<lparr>io_target = p, io_threshold = threshold s3, io_connected = True\<rparr>\<rparr>)
      | Hover \<Rightarrow> s\<lparr>mouseenter_listener := True, mouseleave_listener := True\<rparr>
      | Immediate \<Rightarrow> start_animation s)"

definition microanimation :: "dom \<Rightarrow> microanimation_parameters \<Rightarrow> state" where
  "microanimation d p =
     setup'
       \<lparr>transition = mp_transition p,
        params = (case mp_params p of None \<Rightarrow> [] | Some ps \<Rightarrow> ps),
        threshold = (case mp_threshold p of None \<Rightarrow> 0.5 | Some t \<Rightarrow> t),
        once = (case mp_once p of None \<Rightarrow> True | Some b \<Rightarrow> b),
        mode = (case mp_mode p of None \<Rightarrow> Viewport | Some m \<Rightarrow> m),
        observer = None, animated = False, animation = None, hoverAnimation = None,
        placeholder = None, hovered = False, drivers = [], hover_animations = [],
        pending = [], node_style = dom_style d, sheet = dom_sheet d,
        children = dom_children d, placeholders = dom_placeholders d,
        mouseenter_listener = False, mouseleave_listener = False, calls = [], trace = []\<rparr>"

definition destroy :: "state \<Rightarrow> state \<times> error option" where
  "destroy s =
     (let s1 = abort_current s;
          s2 = disconnect s1;
          s3 = s2\<lparr>mouseenter_listener := False, mouseleave_listener := False\<rparr>
      in if mode s3 = Viewport then
           (case placeholder s3 of
              None \<Rightarrow> (s3, Some TypeError)
            | Some p \<Rightarrow>
                (s3\<lparr>children := map_option (replace_child Node (Placeholder p)) (children s3)\<rparr>,
                 None))
         else (s3, None))"

definition update :: "microanimation_parameters \<Rightarrow> state \<Rightarrow> state" where
  "update newParams s =
     (let s1 = abort_current s;
          s2 = disconnect s1;
          s3 = s2\<lparr>transition := mp_transition newParams,
                 params := (case mp_params newParams of None \<Rightarrow> [] | Some ps \<Rightarrow> ps),
                 threshold := (case mp_threshold newParams of None \<Rightarrow> 0.5 | Some t \<Rightarrow> t),
                 once := (case mp_once newParams of None \<Rightarrow> True | Some b \<Rightarrow> b),
                 mode := (case mp_mode newParams of None \<Rightarrow> Viewport | Some m \<Rightarrow> m)\<rparr>
      in setup' s3)"

text \<open>
  What can happen to an attached node, in any order: the observer delivers an entry (only
  while it observes), the pointer enters or leaves the node (handled only while the
  listener is registered), a suspended task resumes, an animation finishes, and the host
  calls a method of the handle.
\<close>

datatype event =
    Intersect bool
  | Mouse_enter
  | Mouse_leave
  | Resume nat
  | Driver_finish nat
  | Hover_finish nat
  | Destroy
  | Update microanimation_parameters

fun step :: "event \<Rightarrow> state \<Rightarrow> state" where
  "step (Intersect b) s =
     (case observer s of
        None \<Rightarrow> s
      | Some ob \<Rightarrow> if io_connected ob then observer_callback b s else s)"
| "step Mouse_enter s = (if mouseenter_listener s then handle_hover_animation s else s)"
| "step Mouse_leave s = (if mouseleave_listener s then reverse_animation s else s)"
| "step (Resume k) s = resume k s"
| "step (Driver_finish r) s = finish_driver r s"
| "step (Hover_finish k) s = finish_hover k s"
| "step Destroy s = fst (destroy s)"
| "step (Update p) s = update p s"

fun run :: "event list \<Rightarrow> state \<Rightarrow> state" where
  "run [] s = s"
| "run (e # es) s = run es (step e s)"

definition dom_of :: "state \<Rightarrow> dom" where
  "dom_of s =
     \<lparr>dom_style = node_style s, dom_sheet = sheet s, dom_children = children s,
      dom_placeholders = placeholders s\<rparr>"

section \<open>Auxiliary definitions\<close>

text \<open>
  A run whose current handler is not a completion handler; an observer that is still
  observing; an event that re-seeds the configuration; and the separation of the hover
  mode from the other two: in hover mode nothing has triggered, and outside it the
  pointer-leave listener is not registered.
\<close>

definition quiet :: "driver \<Rightarrow> bool" where
  "quiet d =
     (d_animation d < length (d_animations d) \<longrightarrow>
        na_onfinish (d_animations d ! d_animation d) \<in> {Empty_handler, Reverse_finished})"

definition connected :: "state \<Rightarrow> bool" where
  "connected s = (case observer s of None \<Rightarrow> False | Some ob \<Rightarrow> io_connected ob)"

fun is_update :: "event \<Rightarrow> bool" where
  "is_update (Update p) = True"
| "is_update e = False"

definition hover_apart :: "state \<Rightarrow> bool" where
  "hover_apart s =
     (if mode s = Hover then observer s = None \<and> \<not> animated s else \<not> mouseleave_listener s)"

text \<open>
  The inverse of \<^verbatim>\<open>split\<close>: \<^verbatim>\<open>Array.prototype.join\<close> with a one-character separator. And
  the fact that keeps \<^verbatim>\<open>destroy\<close> from raising: in viewport mode the variable
  \<^verbatim>\<open>placeholder\<close> is defined.
\<close>

fun join_on :: "char \<Rightarrow> string list \<Rightarrow> string" where
  "join_on c [] = []"
| "join_on c [w] = w"
| "join_on c (w # v # ws) = w @ c # join_on c (v # ws)"

definition has_placeholder :: "state \<Rightarrow> bool" where
  "has_placeholder s = (mode s \<noteq> Viewport \<or> placeholder s \<noteq> None)"

section \<open>Example inputs\<close>

text \<open>
  A fade whose CSS text is \<^verbatim>\<open>opacity: t\<close> at the three times a duration of 20 ms samples,
  with and without an explicit zero delay.
\<close>

definition fade_css :: "jsnum \<Rightarrow> jsnum \<Rightarrow> string" where
  "fade_css t u =
     (if t = Num 0 then ''opacity: 0;''
      else if t = Num 1 then ''opacity: 1;''
      else ''opacity: 0.5;'')"

definition fade_config :: transition_config where
  "fade_config = \<lparr>delay = None, duration = Some 20, css = Some fade_css, tick = True, easing = None\<rparr>"


text \<open>
  A descriptor of duration zero after a delay, whose CSS text tells whether it is sampled
  at \<^verbatim>\<open>NaN\<close>.
\<close>

definition nan_css :: "jsnum \<Rightarrow> jsnum \<Rightarrow> string" where
  "nan_css t u = (if t = NaN then ''opacity: NaN;'' else ''opacity: 1;'')"

definition instant_config :: transition_config where
  "instant_config =
     \<lparr>delay = Some 200, duration = Some 0, css = Some nan_css, tick = False, easing = None\<rparr>"

text \<open>
  A page whose style sheets display the node as a block, the node being the only child
  of its parent; the fade as a transition function; and the fade in each mode.
\<close>

definition block_sheet :: "string \<Rightarrow> string" where
  "block_sheet p = (if p = ''display'' then ''block'' else ''0px'')"

definition page :: dom where
  "page = \<lparr>dom_style = [], dom_sheet = block_sheet, dom_children = Some [Node], dom_placeholders = []\<rparr>"

definition fade :: transition_fn where
  "fade node_st ps = fade_config"

definition fade_in_view :: microanimation_parameters where
  "fade_in_view =
     \<lparr>mp_transition = fade, mp_params = None, mp_threshold = None, mp_once = None, mp_mode = None\<rparr>"

definition fade_on_hover :: microanimation_parameters where
  "fade_on_hover = fade_in_view\<lparr>mp_mode := Some Hover\<rparr>"

definition fade_immediately :: microanimation_parameters where
  "fade_immediately = fade_in_view\<lparr>mp_mode := Some Immediate\<rparr>"

text \<open>
  States of the example: attached in viewport mode, after the first intersecting entry,
  after the animation has played, attached in hover mode, after the pointer has entered,
  and a node attached in immediate mode, updated to hover mode and entered.
\<close>

definition attached_in_view :: state where
  "attached_in_view = microanimation page fade_in_view"

definition triggered :: state where
  "triggered = step (Intersect True) attached_in_view"

definition played :: state where
  "played = run [Resume 0, Resume 0, Driver_finish 0, Driver_finish 0] triggered"

definition hover_attached :: state where
  "hover_attached = microanimation page fade_on_hover"


definition hovering :: state where
  "hovering = run [Update fade_on_hover, Mouse_enter] (microanimation page fade_immediately)"

text \<open>
  A node attached in hover mode and updated to viewport mode, after its first
  intersecting entry, the two awaited ticks and a pointer-enter.
\<close>

definition leaked :: state where
  "leaked = run [Update fade_in_view, Intersect True, Resume 0, Resume 0, Mouse_enter] hover_attached"

section \<open>Facts about splitting\<close>

lemma split_on_not_Nil: "split_on c s \<noteq> []"
  by (induction s) (auto split: list.splits)

lemma split_on_single: "(length (split_on c s) = 1) = (c \<notin> set s)"
proof (induction s)
  case Nil
  show ?case by simp
next
  case (Cons x xs)
  show ?case
  proof (cases "x = c")
    case True
    then show ?thesis by (simp add: split_on_not_Nil)
  next
    case False
    with Cons show ?thesis
      by (cases "split_on c xs") (auto simp: split_on_not_Nil)
  qed
qed

lemma map_err_upper_first_fails:
  "(map_err upper_first ws = Inl TypeError) = ([] \<in> set ws)"
proof (induction ws)
  case Nil
  show ?case by simp
next
  case (Cons w ws)
  show ?case
  proof (cases w)
    case Nil
    then show ?thesis by simp
  next
    case (Cons c cs)
    with Cons.IH show ?thesis
      by (cases "map_err upper_first ws") auto
  qed
qed

lemma map_err_upper_first_error: "map_err upper_first ws = Inl e \<Longrightarrow> e = TypeError"
proof (induction ws)
  case Nil
  then show ?case by simp
next
  case (Cons w ws)
  then show ?case
    by (cases w; cases "map_err upper_first ws") auto
qed

lemma split_on_append_sep:
  "c \<notin> set w \<Longrightarrow> split_on c (w @ c # rest) = w # split_on c rest"
  by (induction w) (auto split: list.splits)

lemma split_on_no_sep: "c \<notin> set w \<Longrightarrow> split_on c w = [w]"
  by (induction w) (auto split: list.splits)

lemma split_on_join_on:
  "list_all (\<lambda>w. c \<notin> set w) (w # ws) \<Longrightarrow> split_on c (join_on c (w # ws)) = w # ws"
proof (induction ws arbitrary: w)
  case Nil
  then show ?case by (simp add: split_on_no_sep)
next
  case (Cons v ws)
  then show ?case by (simp add: split_on_append_sep)
qed

lemma map_err_upper_first_Inr:
  "list_all (\<lambda>w. w \<noteq> []) ws \<Longrightarrow>
     map_err upper_first ws = Inr (map (\<lambda>w. toUpperCase (hd w) # tl w) ws)"
proof (induction ws)
  case Nil
  then show ?case by simp
next
  case (Cons w ws)
  then show ?case by (cases w) auto
qed

lemma join_on_not_custom:
  assumes "list_all (\<lambda>w. CHR ''-'' \<notin> set w) (w # ws)" and "list_all (\<lambda>w. w \<noteq> []) ws"
  shows "\<not> startsWith (join_on CHR ''-'' (w # ws)) ''--''"
proof (cases ws)
  case Nil
  with assms(1) show ?thesis
    by (cases w; cases "tl w") (auto simp: startsWith_def)
next
  case (Cons v vs)
  with assms have v: "v \<noteq> []" and w: "CHR ''-'' \<notin> set w" and v': "CHR ''-'' \<notin> set v"
    by simp_all
  show ?thesis
  proof (cases w)
    case Nil
    with Cons v v' show ?thesis
      by (cases v; cases vs) (auto simp: startsWith_def)
  next
    case (Cons a as)
    with w show ?thesis
      by (cases ws) (auto simp: startsWith_def)
  qed
qed

lemma join_on_has_sep: "CHR ''-'' \<in> set (join_on CHR ''-'' (w # v # ws))"
  by simp

section \<open>The camelCase conversion\<close>

text \<open>
  Claim C10, as amended. The conversion raises a TypeError exactly on the names that do
  not start with two hyphens and have an empty hyphen-separated segment after the first
  (a trailing hyphen or two hyphens in a row inside the name), and the Keyframe
  Translator raises with it on such a property. A single leading hyphen makes only the
  first segment empty, and that segment is never indexed.
\<close>

theorem camelcase_raises_iff_empty_later_segment:
  "(css_property_to_camelcase p = Inl TypeError) =
     (\<not> startsWith p ''--'' \<and> [] \<in> set (tl (split_on CHR ''-'' p)))
   \<and> css_property_to_camelcase ''a--b'' = Inl TypeError
   \<and> css_property_to_camelcase ''a-'' = Inl TypeError
   \<and> css_to_keyframe ''a--b:1;'' = Inl TypeError"
proof -
  have general: "(css_property_to_camelcase p = Inl TypeError) =
     (\<not> startsWith p ''--'' \<and> [] \<in> set (tl (split_on CHR ''-'' p)))"
  proof (cases "p = ''float'' \<or> p = ''offset''")
    case True
    then show ?thesis
      by (auto simp: css_property_to_camelcase_def)
  next
    case False
    show ?thesis
    proof (cases "startsWith p ''--''")
      case True
      with False show ?thesis by (simp add: css_property_to_camelcase_def)
    next
      case no_prefix: False
      show ?thesis
      proof (cases "length (split_on CHR ''-'' p) = 1")
        case True
        then have "tl (split_on CHR ''-'' p) = []"
          by (cases "split_on CHR ''-'' p") auto
        with True False no_prefix show ?thesis
          by (simp add: css_property_to_camelcase_def)
      next
        case many: False
        show ?thesis
        proof (cases "map_err upper_first (tl (split_on CHR ''-'' p))")
          case (Inl e)
          then have "e = TypeError" by (rule map_err_upper_first_error)
          with Inl have "[] \<in> set (tl (split_on CHR ''-'' p))"
            by (simp add: map_err_upper_first_fails)
          with Inl \<open>e = TypeError\<close> many False no_prefix show ?thesis
            by (simp add: css_property_to_camelcase_def)
        next
          case (Inr ws)
          then have "[] \<notin> set (tl (split_on CHR ''-'' p))"
            using map_err_upper_first_fails [of "tl (split_on CHR ''-'' p)"] by simp
          with Inr many False no_prefix show ?thesis
            by (simp add: css_property_to_camelcase_def)
        qed
      qed
    qed
  qed
  have e1: "css_property_to_camelcase ''a--b'' = Inl TypeError"
    by (simp add: css_property_to_camelcase_def startsWith_def)
  have e2: "css_property_to_camelcase ''a-'' = Inl TypeError"
    by (simp add: css_property_to_camelcase_def startsWith_def)
  have e3: "css_to_keyframe ''a--b:1;'' = Inl TypeError"
    by (simp add: css_to_keyframe_def css_property_to_camelcase_def startsWith_def
        trim_def is_space_def)
  from general e1 e2 e3 show ?thesis by simp
qed

text \<open>
  Claim C10 as stated gives \<^verbatim>\<open>-webkit-transform\<close> as a name on which the conversion
  fails. It does not: the name is converted.
\<close>

theorem camelcase_leading_hyphen_counterexample:
  "css_property_to_camelcase ''-webkit-transform'' = Inr ''WebkitTransform''"
  by (simp add: css_property_to_camelcase_def startsWith_def toUpperCase_def)

text \<open>
  Claim C8. The conversion does not return the joined segments for every property name:
  on \<^verbatim>\<open>margin--top\<close> the second segment is empty and the call raises a TypeError.
\<close>

theorem camelcase_raises_on_double_hyphen:
  "css_property_to_camelcase ''margin--top'' = Inl TypeError"
  by (simp add: css_property_to_camelcase_def startsWith_def)

text \<open>
  What the conversion does on the names it accepts. A name made of hyphen-free segments,
  those after the first not empty, and not \<^verbatim>\<open>float\<close> or \<^verbatim>\<open>offset\<close> when it is a single
  segment, is converted to the first segment followed by the later ones, each with its
  first character in upper case and the rest unchanged; so a name with no hyphen is
  returned as it is.
\<close>

theorem camelcase_joins_segments:
  assumes "list_all (\<lambda>w. CHR ''-'' \<notin> set w) (w # ws)"
      and "list_all (\<lambda>w. w \<noteq> []) ws"
      and "ws = [] \<longrightarrow> w \<noteq> ''float'' \<and> w \<noteq> ''offset''"
  shows "css_property_to_camelcase (join_on CHR ''-'' (w # ws)) =
     Inr (w @ concat (map (\<lambda>v. toUpperCase (hd v) # tl v) ws))"
proof -
  let ?p = "join_on CHR ''-'' (w # ws)"
  have sp: "split_on CHR ''-'' ?p = w # ws"
    using assms(1) by (rule split_on_join_on)
  have nc: "\<not> startsWith ?p ''--''"
    using assms(1,2) by (rule join_on_not_custom)
  have nf: "?p \<noteq> ''float'' \<and> ?p \<noteq> ''offset''"
  proof (cases ws)
    case Nil
    with assms(3) show ?thesis by simp
  next
    case (Cons v vs)
    have "CHR ''-'' \<in> set ?p" unfolding Cons by (rule join_on_has_sep)
    then show ?thesis by auto
  qed
  show ?thesis
  proof (cases ws)
    case Nil
    with sp nc nf show ?thesis
      by (simp add: css_property_to_camelcase_def)
  next
    case (Cons v vs)
    with sp nc nf map_err_upper_first_Inr [OF assms(2)] show ?thesis
      by (simp add: css_property_to_camelcase_def)
  qed
qed

text \<open>
  The conversion of \<^verbatim>\<open>border-top-width\<close>.
\<close>

theorem camelcase_joins_segments_witness:
  "list_all (\<lambda>w. CHR ''-'' \<notin> set w) [''border'', ''top'', ''width'']
   \<and> list_all (\<lambda>w. w \<noteq> []) [''top'', ''width'']
   \<and> join_on CHR ''-'' [''border'', ''top'', ''width''] = ''border-top-width''
   \<and> css_property_to_camelcase ''border-top-width'' = Inr ''borderTopWidth''"
proof -
  have h1: "list_all (\<lambda>w. CHR ''-'' \<notin> set w) [''border'', ''top'', ''width'']" by simp
  have h2: "list_all (\<lambda>w. w \<noteq> []) [''top'', ''width'']" by simp
  have h3: "[''top'', ''width''] = [] \<longrightarrow> ''border'' \<noteq> ''float'' \<and> ''border'' \<noteq> ''offset''"
    by simp
  from camelcase_joins_segments [OF h1 h2 h3] h1 h2 show ?thesis
    by (simp add: toUpperCase_def)
qed

section \<open>The Keyframe Translator\<close>

text \<open>
  Claim C2. The translator does not stop without raising on every text of pairs: on
  \<^verbatim>\<open>margin-:1px;\<close> the property has a value, its name ends in a hyphen, and the
  conversion of the name raises a TypeError that \<^verbatim>\<open>css_to_keyframe\<close> does not catch.
\<close>

theorem css_to_keyframe_raises_on_trailing_hyphen:
  "css_to_keyframe ''margin-:1px;'' = Inl TypeError"
  by (simp add: css_to_keyframe_def css_property_to_camelcase_def startsWith_def
      trim_def is_space_def)

text \<open>
  The texts the specification names are translated as it says, and the empty text gives
  the empty keyframe.
\<close>

theorem translator_on_named_texts:
  "css_to_keyframe ''a:1;b:2;'' = Inr [(''a'', ''1''), (''b'', ''2'')]
   \<and> css_to_keyframe ''float:left;'' = Inr [(''cssFloat'', ''left'')]
   \<and> css_to_keyframe ''a;'' = Inr []
   \<and> css_to_keyframe '''' = Inr []"
  by (simp add: css_to_keyframe_def css_property_to_camelcase_def startsWith_def
      trim_def is_space_def)

section \<open>Facts about sampling\<close>

lemma sample_forward_map_err:
  "sample_forward c e n i acc =
     (case map_err (sample_at c e n) [i..n] of Inl er \<Rightarrow> Inl er | Inr ks \<Rightarrow> Inr (acc @ ks))"
proof (induction c e n i acc rule: sample_forward.induct)
  case (1 c e n i acc)
  show ?case
  proof (cases "i \<le> n")
    case False
    then show ?thesis by (subst sample_forward.simps) simp
  next
    case True
    then have up: "[i..n] = i # [i + 1..n]" by (simp add: upto_rec1)
    show ?thesis
    proof (cases "sample_at c e n i")
      case (Inl er)
      with True up show ?thesis
        by (subst sample_forward.simps) simp
    next
      case (Inr k)
      with True have "sample_forward c e n i acc = sample_forward c e n (i + 1) (acc @ [k])"
        by (subst sample_forward.simps) simp
      also have "\<dots> = (case map_err (sample_at c e n) [i + 1..n] of
                  Inl er \<Rightarrow> Inl er | Inr ks \<Rightarrow> Inr ((acc @ [k]) @ ks))"
        using "1.IH" [OF True Inr] by simp
      finally show ?thesis
        using up Inr by (simp split: sum.splits)
    qed
  qed
qed

lemma map_err_append:
  "map_err f (xs @ ys) =
     (case map_err f xs of Inl e \<Rightarrow> Inl e
      | Inr us \<Rightarrow> (case map_err f ys of Inl e \<Rightarrow> Inl e | Inr vs \<Rightarrow> Inr (us @ vs)))"
  by (induction xs) (auto split: sum.splits)

lemma sample_backward_map_err:
  "sample_backward c e n i acc =
     (case map_err (sample_at c e n) (rev [0..i]) of Inl er \<Rightarrow> Inl er | Inr ks \<Rightarrow> Inr (acc @ ks))"
proof (induction c e n i acc rule: sample_backward.induct)
  case (1 c e n i acc)
  show ?case
  proof (cases "0 \<le> i")
    case False
    then show ?thesis by (subst sample_backward.simps) simp
  next
    case True
    then have up: "rev [0..i] = i # rev [0..i - 1]" by (simp add: upto_rec2)
    show ?thesis
    proof (cases "sample_at c e n i")
      case (Inl er)
      with True up show ?thesis
        by (subst sample_backward.simps) simp
    next
      case (Inr k)
      with True have "sample_backward c e n i acc = sample_backward c e n (i - 1) (acc @ [k])"
        by (subst sample_backward.simps) simp
      also have "\<dots> = (case map_err (sample_at c e n) (rev [0..i - 1]) of
                  Inl er \<Rightarrow> Inl er | Inr ks \<Rightarrow> Inr ((acc @ [k]) @ ks))"
        using "1.IH" [OF True Inr] by simp
      finally show ?thesis
        using up Inr by (simp split: sum.splits)
    qed
  qed
qed


lemma map_err_rev_Inr:
  "map_err f xs = Inr ys \<Longrightarrow> map_err f (rev xs) = Inr (rev ys)"
proof (induction xs arbitrary: ys)
  case Nil
  then show ?case by simp
next
  case (Cons x xs)
  then show ?case
    by (auto split: sum.splits simp: map_err_append)
qed

section \<open>The Animation Driver\<close>



lemma main_keyframes_map_err:
  "css options = Some c \<Longrightarrow>
     main_keyframes options =
       map_err (sample_at c (opt_easing options) (frame_count (or_zero (opt_duration options))))
         [0..frame_count (or_zero (opt_duration options))]"
  by (simp add: main_keyframes_def sample_forward_map_err split: sum.splits)


lemma abort_idem: "abort (abort d) = abort d"
  by (simp add: abort_def update_current_def animation_cancel_def)

lemma quiet_abort: "quiet (abort d)"
  by (simp add: quiet_def abort_def update_current_def animation_cancel_def)

lemma quiet_step:
  assumes "quiet d"
  shows "quiet (fst (driver_step e d))"
    and "set (snd (driver_step e d)) \<subseteq> {Reverse_on_finish_call}"
    and "length (d_animations (fst (driver_step e d))) = length (d_animations d)"
proof -
  show "quiet (fst (driver_step e d))"
    using assms
    by (cases e)
      (auto simp: quiet_def driver_finish_def update_current_def abort_def reverse_def
        animation_cancel_def animation_reverse_def Let_def split: handler.splits)
  show "set (snd (driver_step e d)) \<subseteq> {Reverse_on_finish_call}"
    using assms
    by (cases e)
      (auto simp: quiet_def driver_finish_def update_current_def Let_def split: handler.splits)
  show "length (d_animations (fst (driver_step e d))) = length (d_animations d)"
    using assms
    by (cases e)
      (auto simp: quiet_def driver_finish_def update_current_def abort_def reverse_def
        Let_def split: handler.splits)
qed

lemma quiet_run:
  "quiet d \<Longrightarrow>
     set (snd (driver_run es d)) \<subseteq> {Reverse_on_finish_call}
     \<and> length (d_animations (fst (driver_run es d))) = length (d_animations d)"
proof (induction es arbitrary: d)
  case Nil
  then show ?case by simp
next
  case (Cons e es)
  obtain d1 c1 where s1: "driver_step e d = (d1, c1)" by (cases "driver_step e d")
  obtain d2 c2 where s2: "driver_run es d1 = (d2, c2)" by (cases "driver_run es d1")
  from quiet_step [OF Cons.prems, of e] s1
  have q1: "quiet d1" and c1: "set c1 \<subseteq> {Reverse_on_finish_call}"
    and l1: "length (d_animations d1) = length (d_animations d)" by simp_all
  from Cons.IH [OF q1] s2
  have "set c2 \<subseteq> {Reverse_on_finish_call}"
    and "length (d_animations d2) = length (d_animations d1)" by simp_all
  with c1 l1 s1 s2 show ?case by simp
qed

lemma length_abort: "length (d_animations (abort d)) = length (d_animations d)"
  by (simp add: abort_def update_current_def)

text \<open>
  Claim C9. \<^verbatim>\<open>abort\<close> is idempotent; and whatever happens to the handle after an
  \<^verbatim>\<open>abort\<close>, at any stage of the run (finish events of the platform, further calls of
  \<^verbatim>\<open>abort\<close> or \<^verbatim>\<open>reverse\<close>), neither \<^verbatim>\<open>tick(1, 0)\<close> nor the caller's \<^verbatim>\<open>onFinish\<close> is
  called (the only callback that can still run is the one a later \<^verbatim>\<open>reverse\<close> installs),
  and no further native animation is created: a run aborted in its delay stage never
  starts its main animation.
\<close>

theorem abort_idempotent_and_silences:
  "abort (abort d) = abort d
   \<and> set (snd (driver_run es (abort d))) \<subseteq> {Reverse_on_finish_call}
   \<and> length (d_animations (fst (driver_run es (abort d)))) = length (d_animations d)"
  using abort_idem [of d] quiet_run [OF quiet_abort, of es d] length_abort [of d]
  by simp


lemma upto_0_2: "[0..2::int] = [0, 1, 2]"
  by (simp add: upto_rec1)

lemma frame_count_20: "frame_count 20 = 2"
  by (simp add: frame_count_def)

lemma fade_samples:
  "map_err (sample_at fade_css linear 2) [0..2] =
     Inr [[(''opacity'', ''0'')], [(''opacity'', ''0.5'')], [(''opacity'', ''1'')]]"
  by (simp add: upto_0_2 linear_def sample_at_def js_quotient_def fade_css_def
      css_to_keyframe_def css_property_to_camelcase_def startsWith_def trim_def is_space_def)

lemma fade_main_keyframes:
  "main_keyframes fade_config =
     Inr [[(''opacity'', ''0'')], [(''opacity'', ''0.5'')], [(''opacity'', ''1'')]]"
  using main_keyframes_map_err [of fade_config fade_css] fade_samples
  by (simp add: fade_config_def opt_duration_def or_zero_def opt_easing_def frame_count_20)






text \<open>
  The boundary of a zero duration: the sample count is zero, the loop runs once, and the
  single keyframe is sampled at \<^verbatim>\<open>easing(0 / 0)\<close>, that is at \<^verbatim>\<open>easing(NaN)\<close>.
\<close>

theorem zero_duration_samples_once:
  assumes "css options = Some c" and "duration options = Some 0"
  shows "main_keyframes options =
     (case css_to_keyframe
             (c (opt_easing options NaN) (js_one_minus (opt_easing options NaN))) of
        Inl e \<Rightarrow> Inl e
      | Inr k \<Rightarrow> Inr [k])"
proof -
  have n: "frame_count (or_zero (opt_duration options)) = 0"
    using assms(2) by (simp add: opt_duration_def or_zero_def frame_count_def)
  have "[0..0::int] = [0]" by (simp add: upto_rec1)
  with n assms(1) show ?thesis
    by (simp add: main_keyframes_def sample_forward_map_err sample_at_def js_quotient_def
        split: sum.splits)
qed

text \<open>
  A descriptor with a delay of 200 ms and a duration of zero.
\<close>

theorem zero_duration_samples_once_witness:
  "css instant_config = Some nan_css \<and> duration instant_config = Some 0
   \<and> main_keyframes instant_config = Inr [[(''opacity'', ''NaN'')]]"
proof -
  have h1: "css instant_config = Some nan_css" by (simp add: instant_config_def)
  have h2: "duration instant_config = Some 0" by (simp add: instant_config_def)
  from zero_duration_samples_once [OF h1 h2] h1 h2 show ?thesis
    by (simp add: instant_config_def opt_easing_def linear_def nan_css_def
        css_to_keyframe_def css_property_to_camelcase_def startsWith_def trim_def is_space_def)
qed

section \<open>The Orchestrator\<close>

lemmas translator_defs =
  css_to_keyframe_def css_property_to_camelcase_def startsWith_def trim_def is_space_def

lemmas example_defs = page_def fade_in_view_def fade_def block_sheet_def

lemmas sampling_defs =
  main_keyframes_def hover_keyframes_def sample_forward_map_err sample_backward_map_err
  opt_duration_def opt_delay_def opt_easing_def or_zero_def linear_def sample_at_def
  js_quotient_def frame_count_20 upto_0_2 fade_css_def fade_config_def initial_keyframes_def
  animate_def element_animate_def

lemma attach_page:
  "microanimation page fade_in_view =
     \<lparr>transition = fade, params = [], threshold = 0.5, once = True, mode = Viewport,
      observer = Some \<lparr>io_target = 0, io_threshold = 0.5, io_connected = True\<rparr>,
      animated = False, animation = None, hoverAnimation = None, placeholder = Some 0,
      hovered = False, drivers = [], hover_animations = [], pending = [],
      node_style = [(''display'', ''none'')], sheet = block_sheet,
      children = Some [Placeholder 0, Node],
      placeholders =
        [[(''width'', ''0px''), (''minWidth'', ''0px''), (''height'', ''0px''),
          (''minHeight'', ''0px''), (''margin'', ''0px''), (''padding'', ''0px''),
          (''border'', ''0px''), (''boxSizing'', ''0px''), (''display'', ''block'')]],
      mouseenter_listener = False, mouseleave_listener = False, calls = [], trace = []\<rparr>"
  by (simp add: microanimation_def setup'_def computed_def style_set_def example_defs)

text \<open>
  Claim C3. On the example page, \<^verbatim>\<open>destroy\<close> called before any intersecting entry raises
  nothing, also when called a second time, and puts the node back as the only child of
  its parent; but the inline \<^verbatim>\<open>display: none\<close> that \<^verbatim>\<open>setup\<close> wrote is still there, so the
  node is left hidden.
\<close>

theorem destroy_before_trigger_leaves_node_hidden:
  "snd (destroy (microanimation page fade_in_view)) = None
   \<and> children (fst (destroy (microanimation page fade_in_view))) = Some [Node]
   \<and> computed (fst (destroy (microanimation page fade_in_view))) ''display'' = ''none''
   \<and> snd (destroy (fst (destroy (microanimation page fade_in_view)))) = None"
  unfolding attach_page
  by (simp add: destroy_def abort_current_def disconnect_def replace_child_def computed_def)

lemma setup_viewport_hides:
  "mode s = Viewport \<Longrightarrow> map_of (node_style (setup' s)) ''display'' = Some ''none''"
  by (simp add: setup'_def Let_def style_set_def update_Some_unfold)

lemma destroy_node_style: "node_style (fst (destroy s)) = node_style s \<and> sheet (fst (destroy s)) = sheet s"
  by (auto simp: destroy_def disconnect_def abort_current_def Let_def split: option.splits)

text \<open>
  The same on every page and for every transition: after an attachment in viewport mode,
  \<^verbatim>\<open>destroy\<close> leaves the node with \<^verbatim>\<open>display: none\<close>.
\<close>

lemma destroy_after_attach_hidden:
  "mp_mode p = None \<or> mp_mode p = Some Viewport \<Longrightarrow>
     computed (fst (destroy (microanimation d p))) ''display'' = ''none''"
proof -
  assume "mp_mode p = None \<or> mp_mode p = Some Viewport"
  then have "map_of (node_style (microanimation d p)) ''display'' = Some ''none''"
    unfolding microanimation_def by (intro setup_viewport_hides) auto
  then show ?thesis by (simp add: computed_def destroy_node_style)
qed

lemma start_animation_fields:
  "mode (start_animation s) = mode s"
  "once (start_animation s) = once s"
  "observer (start_animation s) = observer s"
  "mouseleave_listener (start_animation s) = mouseleave_listener s"
  by (auto simp: start_animation_def Let_def split: option.splits)

lemma start_animation_animated: "animated s \<Longrightarrow> animated (start_animation s)"
  by (auto simp: start_animation_def Let_def split: option.splits)

lemma abort_current_fields:
  "mode (abort_current s) = mode s"
  "once (abort_current s) = once s"
  "observer (abort_current s) = observer s"
  "mouseleave_listener (abort_current s) = mouseleave_listener s"
  "animated (abort_current s) = animated s"
  by (auto simp: abort_current_def split: option.splits)

lemma resume_fields:
  "mode (resume k s) = mode s"
  "once (resume k s) = once s"
  "observer (resume k s) = observer s"
  "mouseleave_listener (resume k s) = mouseleave_listener s"
  "animated (resume k s) = animated s"
  by (cases "pending s ! k";
      simp add: resume_def Let_def abort_current_fields split: option.splits sum.splits)+

lemma finish_driver_fields:
  "mode (finish_driver r s) = mode s"
  "once (finish_driver r s) = once s"
  "observer (finish_driver r s) = observer s"
  "mouseleave_listener (finish_driver r s) = mouseleave_listener s"
  by (auto simp: finish_driver_def animation_finished_def Let_def split: prod.splits if_splits)

lemma finish_driver_not_animated: "\<not> animated s \<Longrightarrow> \<not> animated (finish_driver r s)"
  by (auto simp: finish_driver_def animation_finished_def Let_def split: prod.splits if_splits)

lemma finish_driver_keeps_animated:
  "mode s \<noteq> Hover \<Longrightarrow> animated (finish_driver r s) = animated s"
  by (auto simp: finish_driver_def animation_finished_def Let_def split: prod.splits if_splits)

lemma finish_hover_fields:
  "mode (finish_hover k s) = mode s"
  "once (finish_hover k s) = once s"
  "observer (finish_hover k s) = observer s"
  "mouseleave_listener (finish_hover k s) = mouseleave_listener s"
  "animated (finish_hover k s) = animated s"
  by (auto simp: finish_hover_def Let_def split: handler.splits)

lemma handle_hover_fields:
  "mode (handle_hover_animation s) = mode s"
  "once (handle_hover_animation s) = once s"
  "observer (handle_hover_animation s) = observer s"
  "mouseleave_listener (handle_hover_animation s) = mouseleave_listener s"
  "animated (handle_hover_animation s) = animated s"
  by (auto simp: handle_hover_animation_def start_hover_animation_def Let_def split: sum.splits)

lemma reverse_animation_fields:
  "mode (reverse_animation s) = mode s"
  "once (reverse_animation s) = once s"
  "observer (reverse_animation s) = observer s"
  "mouseleave_listener (reverse_animation s) = mouseleave_listener s"
  by (auto simp: reverse_animation_def Let_def split: option.splits if_splits)

lemma reverse_animation_not_animated: "\<not> animated s \<Longrightarrow> \<not> animated (reverse_animation s)"
  by (auto simp: reverse_animation_def Let_def split: option.splits if_splits)

lemma destroy_fields:
  "mode (fst (destroy s)) = mode s"
  "once (fst (destroy s)) = once s"
  "observer (fst (destroy s)) = map_option (\<lambda>ob. ob\<lparr>io_connected := False\<rparr>) (observer s)"
  "mouseleave_listener (fst (destroy s)) = False"
  "animated (fst (destroy s)) = animated s"
  by (auto simp: destroy_def disconnect_def abort_current_fields Let_def split: option.splits)

lemma observer_callback_fields:
  "mode (observer_callback b s) = mode s"
  "once (observer_callback b s) = once s"
  "mouseleave_listener (observer_callback b s) = mouseleave_listener s"
  by (auto simp: observer_callback_def disconnect_def start_animation_fields Let_def)

lemma observer_callback_animated: "animated s \<Longrightarrow> animated (observer_callback b s)"
  by (auto simp: observer_callback_def disconnect_def start_animation_animated Let_def)

lemma step_mode_once:
  "\<not> is_update e \<Longrightarrow> mode (step e s) = mode s \<and> once (step e s) = once s"
  by (cases e)
    (auto simp: observer_callback_fields handle_hover_fields reverse_animation_fields
      resume_fields finish_driver_fields finish_hover_fields destroy_fields
      split: option.splits)

lemma step_hover_apart:
  assumes "\<not> is_update e" and "hover_apart s"
  shows "hover_apart (step e s)"
proof (cases "mode s = Hover")
  case True
  with assms(2) have o: "observer s = None" and a: "\<not> animated s"
    by (simp_all add: hover_apart_def)
  from assms(1) True o a show ?thesis
    by (cases e)
      (simp_all add: hover_apart_def handle_hover_fields reverse_animation_fields
        resume_fields finish_driver_fields finish_hover_fields destroy_fields
        reverse_animation_not_animated finish_driver_not_animated)
next
  case False
  with assms(2) have l: "\<not> mouseleave_listener s"
    by (simp add: hover_apart_def)
  from assms(1) False l show ?thesis
    by (cases e)
      (simp_all add: hover_apart_def observer_callback_fields handle_hover_fields
        resume_fields finish_driver_fields finish_hover_fields destroy_fields
        split: option.splits)
qed

lemma step_keeps_animated:
  assumes "\<not> is_update e" and "hover_apart s" and "animated s"
  shows "animated (step e s)"
proof -
  from assms(2,3) have m: "mode s \<noteq> Hover" and l: "\<not> mouseleave_listener s"
    by (auto simp: hover_apart_def split: if_splits)
  from assms(1,3) m l show ?thesis
    by (cases e)
      (simp_all add: observer_callback_animated handle_hover_fields
        resume_fields finish_driver_keeps_animated finish_hover_fields destroy_fields
        split: option.splits)
qed

lemma run_append: "run (es1 @ es2) s = run es2 (run es1 s)"
  by (induction es1 arbitrary: s) auto

lemma run_hover_apart:
  "list_all (\<lambda>e. \<not> is_update e) es \<Longrightarrow> hover_apart s \<Longrightarrow> hover_apart (run es s)"
  by (induction es arbitrary: s) (auto simp: step_hover_apart)

lemma run_keeps_animated:
  "list_all (\<lambda>e. \<not> is_update e) es \<Longrightarrow> hover_apart s \<Longrightarrow> animated s \<Longrightarrow> animated (run es s)"
  by (induction es arbitrary: s) (auto simp: step_hover_apart step_keeps_animated)

lemma hover_apart_attach: "hover_apart (microanimation d p)"
  by (auto simp: hover_apart_def microanimation_def setup'_def start_animation_fields Let_def
      split: mode.splits option.splits)

lemma start_animation_latched: "animated s \<and> once s \<Longrightarrow> start_animation s = s"
  by (simp add: start_animation_def)

lemma update_animated:
  "\<not> animated s \<Longrightarrow> animated (update p s) \<Longrightarrow> mp_mode p = Some Immediate"
  by (auto simp: update_def setup'_def Let_def disconnect_def abort_current_fields
      split: mode.splits option.splits)

lemma animated_only_by_trigger:
  assumes "\<not> animated s" and "animated (step e s)"
  shows "(e = Intersect True \<and> connected s) \<or> (\<exists>p. e = Update p \<and> mp_mode p = Some Immediate)"
proof (cases e)
  case (Intersect b)
  with assms show ?thesis
    by (cases b; cases "observer s")
      (auto simp: connected_def observer_callback_def split: if_splits)
next
  case Mouse_enter
  with assms show ?thesis by (simp add: handle_hover_fields split: if_splits)
next
  case Mouse_leave
  with assms show ?thesis by (simp add: reverse_animation_not_animated split: if_splits)
next
  case (Resume k)
  with assms show ?thesis by (simp add: resume_fields)
next
  case (Driver_finish r)
  with assms show ?thesis by (simp add: finish_driver_not_animated)
next
  case (Hover_finish k)
  with assms show ?thesis by (simp add: finish_hover_fields)
next
  case Destroy
  with assms show ?thesis by (simp add: destroy_fields)
next
  case (Update p)
  with assms show ?thesis using update_animated [of s p] by simp
qed

lemma attach_animated: "animated (microanimation d p) = (mp_mode p = Some Immediate)"
  by (auto simp: microanimation_def setup'_def start_animation_def Let_def
      split: mode.splits option.splits)

lemma once_trigger_disconnects:
  "connected s \<and> once s \<Longrightarrow> \<not> connected (step (Intersect True) s)"
  by (cases "observer s")
    (auto simp: connected_def observer_callback_def disconnect_def start_animation_fields Let_def)

lemma disconnected_stays:
  "\<not> connected s \<Longrightarrow> \<not> is_update e \<Longrightarrow> \<not> connected (step e s)"
  by (cases e; cases "observer s")
    (auto simp: connected_def handle_hover_fields reverse_animation_fields
      resume_fields finish_driver_fields finish_hover_fields destroy_fields)

lemma disconnected_ignores_entries: "\<not> connected s \<Longrightarrow> step (Intersect b) s = s"
  by (cases "observer s") (auto simp: connected_def)

lemma hover_leave_clears_animated:
  "mode s = Hover \<and> mouseleave_listener s \<and> hovered s \<Longrightarrow> \<not> animated (step Mouse_leave s)"
  by (auto simp: reverse_animation_def Let_def split: option.splits)

lemma start_animation_placeholder:
  "mode (start_animation s) = mode s \<and> placeholder (start_animation s) = placeholder s"
  by (auto simp: start_animation_def Let_def split: option.splits)

lemma abort_current_placeholder: "placeholder (abort_current s) = placeholder s"
  by (auto simp: abort_current_def split: option.splits)

lemma resume_placeholder: "placeholder (resume k s) = placeholder s"
  by (cases "pending s ! k";
      simp add: resume_def Let_def abort_current_placeholder split: option.splits sum.splits)

lemma finish_driver_placeholder: "placeholder (finish_driver r s) = placeholder s"
  by (auto simp: finish_driver_def animation_finished_def Let_def split: prod.splits if_splits)

lemma finish_hover_placeholder: "placeholder (finish_hover k s) = placeholder s"
  by (auto simp: finish_hover_def Let_def split: handler.splits)

lemma handle_hover_placeholder: "placeholder (handle_hover_animation s) = placeholder s"
  by (auto simp: handle_hover_animation_def start_hover_animation_def Let_def split: sum.splits)

lemma reverse_animation_placeholder: "placeholder (reverse_animation s) = placeholder s"
  by (auto simp: reverse_animation_def Let_def split: option.splits if_splits)

lemma destroy_placeholder: "placeholder (fst (destroy s)) = placeholder s"
  by (auto simp: destroy_def disconnect_def abort_current_placeholder Let_def split: option.splits)

lemma observer_callback_placeholder: "placeholder (observer_callback b s) = placeholder s"
  by (auto simp: observer_callback_def disconnect_def start_animation_placeholder Let_def)

lemma setup_has_placeholder: "has_placeholder (setup' s)"
  by (auto simp: has_placeholder_def setup'_def start_animation_placeholder Let_def
      split: mode.splits)

lemma step_has_placeholder: "has_placeholder s \<Longrightarrow> has_placeholder (step e s)"
proof (cases e)
  case (Update p)
  then show ?thesis by (simp add: update_def Let_def setup_has_placeholder)
next
  case (Intersect b)
  assume "has_placeholder s"
  with Intersect show ?thesis
    by (cases "observer s")
      (auto simp: has_placeholder_def observer_callback_fields observer_callback_placeholder)
qed (auto simp: has_placeholder_def handle_hover_fields handle_hover_placeholder
      reverse_animation_fields reverse_animation_placeholder resume_fields resume_placeholder
      finish_driver_fields finish_driver_placeholder finish_hover_fields
      finish_hover_placeholder destroy_fields destroy_placeholder)

lemma run_has_placeholder: "has_placeholder s \<Longrightarrow> has_placeholder (run es s)"
  by (induction es arbitrary: s) (auto simp: step_has_placeholder)

lemma destroy_raises_nothing: "has_placeholder s \<Longrightarrow> snd (destroy s) = None"
  by (auto simp: has_placeholder_def destroy_def disconnect_def abort_current_fields
      abort_current_placeholder Let_def split: option.splits)

text \<open>
  \<^verbatim>\<open>destroy\<close> raises nothing, whatever has happened since the attachment (updates
  included), and nothing when it is called a second time.
\<close>

theorem destroy_never_raises:
  "snd (destroy (run es (microanimation d p))) = None
   \<and> snd (destroy (fst (destroy (run es (microanimation d p))))) = None"
proof -
  have "has_placeholder (microanimation d p)"
    unfolding microanimation_def by (rule setup_has_placeholder)
  then have r: "has_placeholder (run es (microanimation d p))"
    by (rule run_has_placeholder)
  then have "has_placeholder (fst (destroy (run es (microanimation d p))))"
    using step_has_placeholder [of "run es (microanimation d p)" Destroy] by simp
  with r show ?thesis by (simp add: destroy_raises_nothing)
qed

text \<open>
  The parts of claim C7 that hold. From a fresh attachment and as long as the configuration is not re-seeded by
  \<^verbatim>\<open>update\<close>, once \<^verbatim>\<open>animated\<close> is true it stays true. When \<^verbatim>\<open>animated\<close> and \<^verbatim>\<open>once\<close> are
  true, \<^verbatim>\<open>start_animation\<close> returns without any effect. \<^verbatim>\<open>animated\<close> becomes true only by a
  trigger: an intersecting entry delivered by a connected observer, or an update to
  immediate mode; after an attachment it is true exactly in immediate mode. With \<^verbatim>\<open>once\<close>,
  an intersecting entry disconnects the observer; a disconnected observer stays
  disconnected until an update, and entries are then ignored. In hover mode, a
  pointer-leave after a pointer-enter sets \<^verbatim>\<open>animated\<close> to false.
\<close>

theorem animated_latches_until_update:
  "(\<forall>d p es1 es2.
      list_all (\<lambda>e. \<not> is_update e) (es1 @ es2) \<and> animated (run es1 (microanimation d p))
        \<longrightarrow> animated (run (es1 @ es2) (microanimation d p)))
   \<and> (\<forall>s. animated s \<and> once s \<longrightarrow> start_animation s = s)
   \<and> (\<forall>s e. \<not> animated s \<and> animated (step e s) \<longrightarrow>
         (e = Intersect True \<and> connected s) \<or> (\<exists>p. e = Update p \<and> mp_mode p = Some Immediate))
   \<and> (\<forall>d p. animated (microanimation d p) = (mp_mode p = Some Immediate))
   \<and> (\<forall>s. connected s \<and> once s \<longrightarrow> \<not> connected (step (Intersect True) s))
   \<and> (\<forall>s e. \<not> connected s \<and> \<not> is_update e \<longrightarrow> \<not> connected (step e s))
   \<and> (\<forall>s b. \<not> connected s \<longrightarrow> step (Intersect b) s = s)
   \<and> (\<forall>s. mode s = Hover \<and> mouseleave_listener s \<and> hovered s \<longrightarrow>
         \<not> animated (step Mouse_leave s))"
proof -
  have latch: "animated (run (es1 @ es2) (microanimation d p))"
    if "list_all (\<lambda>e. \<not> is_update e) (es1 @ es2)" and "animated (run es1 (microanimation d p))"
    for d p es1 es2
  proof -
    from that(1) have n1: "list_all (\<lambda>e. \<not> is_update e) es1"
      and n2: "list_all (\<lambda>e. \<not> is_update e) es2" by simp_all
    have "hover_apart (run es1 (microanimation d p))"
      using run_hover_apart [OF n1 hover_apart_attach] .
    from run_keeps_animated [OF n2 this that(2)] show ?thesis
      by (simp add: run_append)
  qed
  show ?thesis
    using latch start_animation_latched animated_only_by_trigger attach_animated
      once_trigger_disconnects disconnected_stays disconnected_ignores_entries
      hover_leave_clears_animated
    by blast
qed

lemma triggered_eq:
  "triggered =
     \<lparr>transition = fade, params = [], threshold = 0.5, once = True, mode = Viewport,
      observer = Some \<lparr>io_target = 0, io_threshold = 0.5, io_connected = False\<rparr>,
      animated = True, animation = None, hoverAnimation = None, placeholder = Some 0,
      hovered = False, drivers = [], hover_animations = [],
      pending = [Swap_display fade_config],
      node_style = [(''display'', ''none'')], sheet = block_sheet,
      children = Some [Node],
      placeholders =
        [[(''width'', ''0px''), (''minWidth'', ''0px''), (''height'', ''0px''),
          (''minHeight'', ''0px''), (''margin'', ''0px''), (''padding'', ''0px''),
          (''border'', ''0px''), (''boxSizing'', ''0px''), (''display'', ''block'')]],
      mouseenter_listener = False, mouseleave_listener = False, calls = [], trace = []\<rparr>"
  unfolding triggered_def attached_in_view_def attach_page
  by (simp add: observer_callback_def start_animation_def disconnect_def fade_def)

lemma attached_in_view_eq:
  "attached_in_view =
     \<lparr>transition = fade, params = [], threshold = 0.5, once = True, mode = Viewport,
      observer = Some \<lparr>io_target = 0, io_threshold = 0.5, io_connected = True\<rparr>,
      animated = False, animation = None, hoverAnimation = None, placeholder = Some 0,
      hovered = False, drivers = [], hover_animations = [], pending = [],
      node_style = [(''display'', ''none'')], sheet = block_sheet,
      children = Some [Placeholder 0, Node],
      placeholders =
        [[(''width'', ''0px''), (''minWidth'', ''0px''), (''height'', ''0px''),
          (''minHeight'', ''0px''), (''margin'', ''0px''), (''padding'', ''0px''),
          (''border'', ''0px''), (''boxSizing'', ''0px''), (''display'', ''block'')]],
      mouseenter_listener = False, mouseleave_listener = False, calls = [], trace = []\<rparr>"
  unfolding attached_in_view_def by (rule attach_page)

lemma or_zero_id: "or_zero d = d"
  by (simp add: or_zero_def)

lemma hover_keyframes_map_err:
  "css config = Some c \<Longrightarrow>
     hover_keyframes config =
       map_err (sample_at c (opt_easing config) (frame_count (opt_duration config)))
         (rev [0..frame_count (opt_duration config)])"
  by (simp add: hover_keyframes_def sample_backward_map_err split: sum.splits)

lemma hover_keyframes_rev_main:
  assumes "main_keyframes config = Inr ks"
  shows "hover_keyframes config = Inr (rev ks)"
proof (cases "css config")
  case None
  with assms show ?thesis
    by (auto simp: main_keyframes_def hover_keyframes_def)
next
  case (Some c)
  with assms have "map_err (sample_at c (opt_easing config) (frame_count (opt_duration config)))
         [0..frame_count (opt_duration config)] = Inr ks"
    using main_keyframes_map_err [of config c] by (simp add: or_zero_id)
  from map_err_rev_Inr [OF this] Some show ?thesis
    by (simp add: hover_keyframes_map_err)
qed



lemma fade_hover_keyframes:
  "hover_keyframes fade_config =
     Inr [[(''opacity'', ''1'')], [(''opacity'', ''0.5'')], [(''opacity'', ''0'')]]"
  using hover_keyframes_rev_main [OF fade_main_keyframes] by simp

lemma hovering_facts:
  "mode hovering = Hover \<and> mouseleave_listener hovering \<and> hovered hovering \<and> animated hovering"
  unfolding hovering_def
  by (simp add: microanimation_def setup'_def start_animation_def update_def abort_current_def
      disconnect_def handle_hover_animation_def start_hover_animation_def fade_hover_keyframes
      fade_immediately_def fade_on_hover_def example_defs Let_def)

text \<open>
  On the example: a node attached in viewport mode with \<^verbatim>\<open>once\<close> is triggered
  by its first entry and stays animated through the animation and a second entry, which
  the disconnected observer does not deliver; a node attached in immediate mode and
  updated to hover mode is animated, and a pointer-leave resets the flag.
\<close>

theorem animated_latches_until_update_witness:
  "list_all (\<lambda>e. \<not> is_update e)
     ([Intersect True] @ [Resume 0, Resume 0, Driver_finish 0, Driver_finish 0, Intersect True])
   \<and> animated (run [Intersect True] (microanimation page fade_in_view))
   \<and> animated
       (run ([Intersect True] @ [Resume 0, Resume 0, Driver_finish 0, Driver_finish 0, Intersect True])
          (microanimation page fade_in_view))
   \<and> animated triggered \<and> once triggered \<and> start_animation triggered = triggered
   \<and> \<not> animated attached_in_view \<and> animated (step (Intersect True) attached_in_view)
   \<and> connected attached_in_view \<and> once attached_in_view
   \<and> \<not> connected (step (Intersect True) attached_in_view)
   \<and> \<not> connected triggered \<and> step (Intersect True) triggered = triggered
   \<and> mode hovering = Hover \<and> mouseleave_listener hovering \<and> hovered hovering
   \<and> animated hovering \<and> \<not> animated (step Mouse_leave hovering)"
proof -
  note main = animated_latches_until_update
  have h1: "list_all (\<lambda>e. \<not> is_update e)
     ([Intersect True] @ [Resume 0, Resume 0, Driver_finish 0, Driver_finish 0, Intersect True])"
    by simp
  have h2: "animated (run [Intersect True] (microanimation page fade_in_view))"
    using triggered_eq by (simp add: triggered_def attached_in_view_def)
  from main h1 h2 have c1: "animated
       (run ([Intersect True] @ [Resume 0, Resume 0, Driver_finish 0, Driver_finish 0, Intersect True])
          (microanimation page fade_in_view))"
    by blast
  have h3: "animated triggered \<and> once triggered \<and> \<not> connected triggered"
    by (simp add: triggered_eq connected_def)
  from main h3 have c2: "start_animation triggered = triggered" by blast
  from main h3 have c3: "step (Intersect True) triggered = triggered" by blast
  have h4: "\<not> animated attached_in_view \<and> connected attached_in_view \<and> once attached_in_view"
    by (simp add: attached_in_view_eq connected_def)
  have h5: "animated (step (Intersect True) attached_in_view)"
    using triggered_eq by (simp add: triggered_def)
  from main h4 have c4: "\<not> connected (step (Intersect True) attached_in_view)" by blast
  from main hovering_facts have c5: "\<not> animated (step Mouse_leave hovering)" by blast
  from h1 h2 c1 h3 c2 c3 h4 h5 c4 hovering_facts c5 show ?thesis by blast
qed

lemma hover_attached_eq:
  "hover_attached =
     \<lparr>transition = fade, params = [], threshold = 0.5, once = True, mode = Hover,
      observer = None, animated = False, animation = None, hoverAnimation = None,
      placeholder = None, hovered = False, drivers = [], hover_animations = [], pending = [],
      node_style = [], sheet = block_sheet, children = Some [Node], placeholders = [],
      mouseenter_listener = True, mouseleave_listener = True, calls = [], trace = []\<rparr>"
  by (simp add: hover_attached_def microanimation_def setup'_def fade_on_hover_def example_defs)


lemma setup_animated: "animated s \<Longrightarrow> animated (setup' s)"
  by (auto simp: setup'_def start_animation_animated Let_def split: mode.splits)

lemma update_keeps_flag: "animated s \<Longrightarrow> animated (update p s)"
  by (simp add: update_def Let_def setup_animated disconnect_def abort_current_fields)

text \<open>
  The flag is cleared on the hover path only: by a pointer-leave that the registered
  listener handles on a hovered node, or by the finish of a run in hover mode. This holds
  of every state and every event, updates included.
\<close>

lemma animated_cleared_only_by_hover_path:
  assumes "animated s" and "\<not> animated (step e s)"
  shows "(e = Mouse_leave \<and> mouseleave_listener s \<and> hovered s)
     \<or> (\<exists>r. e = Driver_finish r \<and> mode s = Hover)"
proof (cases e)
  case (Intersect b)
  with assms show ?thesis
    by (cases "observer s") (auto simp: observer_callback_animated split: if_splits)
next
  case Mouse_enter
  with assms show ?thesis by (simp add: handle_hover_fields split: if_splits)
next
  case Mouse_leave
  with assms show ?thesis
    by (cases "hovered s") (auto simp: reverse_animation_def split: if_splits)
next
  case (Resume k)
  with assms show ?thesis by (simp add: resume_fields)
next
  case (Driver_finish r)
  with assms show ?thesis
    using finish_driver_keeps_animated [of s r] by auto
next
  case (Hover_finish k)
  with assms show ?thesis by (simp add: finish_hover_fields)
next
  case Destroy
  with assms show ?thesis by (simp add: destroy_fields)
next
  case (Update p)
  with assms show ?thesis by (simp add: update_keeps_flag)
qed

lemma start_animation_enter_listener:
  "mouseenter_listener (start_animation s) = mouseenter_listener s"
  by (auto simp: start_animation_def Let_def split: option.splits)

lemma observer_callback_enter_listener:
  "mouseenter_listener (observer_callback b s) = mouseenter_listener s"
  by (auto simp: observer_callback_def disconnect_def start_animation_enter_listener Let_def)

lemma abort_current_enter_listener:
  "mouseenter_listener (abort_current s) = mouseenter_listener s"
  by (auto simp: abort_current_def split: option.splits)

lemma resume_enter_listener: "mouseenter_listener (resume k s) = mouseenter_listener s"
  by (cases "pending s ! k";
      simp add: resume_def Let_def abort_current_enter_listener split: option.splits sum.splits)

lemma trigger_sets_animated: "connected s \<Longrightarrow> animated (step (Intersect True) s)"
  by (cases "observer s")
    (auto simp: connected_def observer_callback_def disconnect_def start_animation_def Let_def
      split: option.splits)

lemma handle_hover_sets_hovered: "hovered (handle_hover_animation s)"
  by (auto simp: handle_hover_animation_def start_hover_animation_def Let_def split: sum.splits)

lemma leave_clears_animated:
  "mouseleave_listener s \<Longrightarrow> hovered s \<Longrightarrow> \<not> animated (step Mouse_leave s)"
  by (auto simp: reverse_animation_def Let_def split: option.splits)

lemma update_out_of_hover:
  "mode (update fade_in_view hover_attached) = Viewport
   \<and> once (update fade_in_view hover_attached)
   \<and> connected (update fade_in_view hover_attached)
   \<and> mouseenter_listener (update fade_in_view hover_attached)
   \<and> mouseleave_listener (update fade_in_view hover_attached)"
  unfolding hover_attached_eq
  by (simp add: update_def setup'_def abort_current_def disconnect_def connected_def
      fade_in_view_def Let_def)

text \<open>
  Claim C7. With \<^verbatim>\<open>once\<close> true the flag does not always stay true outside hover mode.
  \<^verbatim>\<open>update\<close> does not remove the pointer listeners: on a node attached in hover mode and
  updated to viewport mode, the first intersecting entry sets \<^verbatim>\<open>animated\<close>, and a
  pointer-enter followed by a pointer-leave clears it again, in viewport mode and with
  \<^verbatim>\<open>once\<close> true.
\<close>

theorem stale_hover_listener_clears_animated:
  "mode leaked = Viewport \<and> once leaked \<and> animated leaked
   \<and> \<not> animated (step Mouse_leave leaked)"
proof -
  define s1 where "s1 = update fade_in_view hover_attached"
  define s2 where "s2 = step (Intersect True) s1"
  define s4 where "s4 = resume 0 (resume 0 s2)"
  have l: "leaked = handle_hover_animation s4"
  proof -
    have "mouseenter_listener s4"
      using update_out_of_hover
      by (cases "observer s1")
        (simp_all add: s4_def s2_def s1_def resume_enter_listener
          observer_callback_enter_listener)
    then show ?thesis
      by (simp add: leaked_def s4_def s2_def s1_def)
  qed
  have a2: "animated s2"
    unfolding s2_def using update_out_of_hover by (simp only: s1_def trigger_sets_animated)
  have f2: "mode s2 = Viewport \<and> once s2 \<and> mouseleave_listener s2"
    using update_out_of_hover step_mode_once [of "Intersect True" s1]
    by (cases "observer s1") (simp_all add: s2_def s1_def observer_callback_fields)
  have f4: "mode s4 = Viewport \<and> once s4 \<and> mouseleave_listener s4 \<and> animated s4"
    using a2 f2 by (simp add: s4_def resume_fields)
  have f5: "mode leaked = Viewport \<and> once leaked \<and> mouseleave_listener leaked
      \<and> animated leaked \<and> hovered leaked"
    using f4 by (simp add: l handle_hover_fields handle_hover_sets_hovered)
  with leave_clears_animated [of leaked] show ?thesis by simp
qed















lemma setup_configuration:
  "transition (setup' s) = transition s \<and> params (setup' s) = params s
   \<and> threshold (setup' s) = threshold s \<and> once (setup' s) = once s \<and> mode (setup' s) = mode s"
  by (auto simp: setup'_def start_animation_def Let_def split: mode.splits option.splits)

text \<open>
  The part of claim C5 that holds: \<^verbatim>\<open>update\<close> replaces the five configuration variables,
  with the defaults for the fields that are omitted.
\<close>

lemma update_reseeds_configuration:
  "transition (update p s) = mp_transition p
   \<and> params (update p s) = (case mp_params p of None \<Rightarrow> [] | Some ps \<Rightarrow> ps)
   \<and> threshold (update p s) = (case mp_threshold p of None \<Rightarrow> 0.5 | Some t \<Rightarrow> t)
   \<and> once (update p s) = (case mp_once p of None \<Rightarrow> True | Some b \<Rightarrow> b)
   \<and> mode (update p s) = (case mp_mode p of None \<Rightarrow> Viewport | Some m \<Rightarrow> m)"
  by (simp add: update_def Let_def setup_configuration)

lemma played_eq:
  "played =
     \<lparr>transition = fade, params = [], threshold = 0.5, once = True, mode = Viewport,
      observer = Some \<lparr>io_target = 0, io_threshold = 0.5, io_connected = False\<rparr>,
      animated = True, animation = None, hoverAnimation = None, placeholder = Some 0,
      hovered = False,
      drivers =
        [\<lparr>d_options = fade_config,
          d_animations =
            [\<lparr>na_keyframes = [[(''opacity'', ''0'')], [(''opacity'', ''0'')]],
              na_duration = 0, na_delay = 0, na_fill = Fill_auto, na_easing = None,
              na_state = Finished, na_effect = True, na_reversed = False,
              na_onfinish = Delay_finished\<rparr>,
             \<lparr>na_keyframes =
                [[(''opacity'', ''0'')], [(''opacity'', ''0.5'')], [(''opacity'', ''1'')]],
              na_duration = 20, na_delay = 0, na_fill = Fill_forwards, na_easing = None,
              na_state = Finished, na_effect = True, na_reversed = False,
              na_onfinish = Main_finished\<rparr>],
          d_animation = 1\<rparr>],
      hover_animations = [], pending = [],
      node_style = [(''display'', ''block''), (''opacity'', ''0'')], sheet = block_sheet,
      children = Some [Node],
      placeholders =
        [[(''width'', ''0px''), (''minWidth'', ''0px''), (''height'', ''0px''),
          (''minHeight'', ''0px''), (''margin'', ''0px''), (''padding'', ''0px''),
          (''border'', ''0px''), (''boxSizing'', ''0px''), (''display'', ''block'')]],
      mouseenter_listener = False, mouseleave_listener = False,
      calls = [Tick_call (Num 1) (Num 0), On_finish_call], trace = []\<rparr>"
  unfolding played_def triggered_eq
  by (simp add: resume_def placeholder_style_def style_get_def style_set_def
      getFirstKeyframeOfTransition_def abort_current_def finish_driver_def
      driver_finish_def update_current_def delay_finished_def animation_finished_def
      sampling_defs translator_defs)

lemma update_keeps_old_placeholder: "children (update fade_in_view attached_in_view)
       = Some [Placeholder 0, Placeholder 1, Node]
     \<and> children (microanimation (dom_of (fst (destroy attached_in_view))) fade_in_view)
       = Some [Placeholder 1, Node]"
    unfolding attached_in_view_eq
    by (simp add: update_def destroy_def microanimation_def setup'_def abort_current_def
        disconnect_def replace_child_def dom_of_def fade_in_view_def Let_def)

lemma update_keeps_animated: "animated (update fade_in_view played)
     \<and> pending (step (Intersect True) (update fade_in_view played)) = []"
  unfolding played_eq
  by (simp add: update_def setup'_def abort_current_def disconnect_def
      observer_callback_def start_animation_def fade_in_view_def Let_def)

lemma fresh_attachment_triggers: "\<not> animated (microanimation (dom_of (fst (destroy played))) fade_in_view)
     \<and> pending (step (Intersect True) (microanimation (dom_of (fst (destroy played))) fade_in_view))
       = [Swap_display fade_config]"
  unfolding played_eq
  by (simp add: microanimation_def setup'_def dom_of_def destroy_def abort_current_def
      disconnect_def replace_child_def observer_callback_def start_animation_def
      fade_in_view_def fade_def Let_def)

lemma update_keeps_listeners: "mouseenter_listener (update fade_in_view hover_attached)
     \<and> \<not> mouseenter_listener (microanimation (dom_of (fst (destroy hover_attached))) fade_in_view)"
  unfolding hover_attached_eq
  by (simp add: update_def destroy_def microanimation_def setup'_def abort_current_def
      disconnect_def dom_of_def fade_in_view_def Let_def)

text \<open>
  Claim C5. \<^verbatim>\<open>update\<close> is not \<^verbatim>\<open>destroy\<close> followed by a fresh attachment. Updating a node
  attached in viewport mode leaves the old placeholder in the page beside the new one.
  Updating after the animation has played keeps \<^verbatim>\<open>animated\<close> true, so the next intersecting
  entry starts nothing and the node stays hidden behind the new placeholder, where a
  fresh attachment would start the animation. Updating a node attached in hover mode
  leaves its pointer listeners registered.
\<close>

theorem update_is_not_destroy_then_attach:
  "children (update fade_in_view attached_in_view)
     = Some [Placeholder 0, Placeholder 1, Node]
   \<and> children (microanimation (dom_of (fst (destroy attached_in_view))) fade_in_view)
     = Some [Placeholder 1, Node]
   \<and> animated (update fade_in_view played)
   \<and> \<not> animated (microanimation (dom_of (fst (destroy played))) fade_in_view)
   \<and> pending (step (Intersect True) (update fade_in_view played)) = []
   \<and> pending (step (Intersect True) (microanimation (dom_of (fst (destroy played))) fade_in_view))
     = [Swap_display fade_config]
   \<and> mouseenter_listener (update fade_in_view hover_attached)
   \<and> \<not> mouseenter_listener (microanimation (dom_of (fst (destroy hover_attached))) fade_in_view)"
  using update_keeps_old_placeholder update_keeps_animated fresh_attachment_triggers
    update_keeps_listeners
  by blast

end
